theory Spec2Isabelle
  imports Main "HOL-Library.AList" "HOL-Library.Multiset"
begin

section \<open>Values held in table cells\<close>

text \<open>
  A Python float is not-a-number, an infinity, or a finite binary fraction
  \<open>m * 2 ^ e\<close> with integers \<open>m\<close> and \<open>e\<close>; the conversions of the source
  (\<open>int(x)\<close>, \<open>np.isnan(x)\<close>, dictionary lookup) are exact on that value.
\<close>

datatype pyfloat = FNaN | FPosInf | FNegInf | FFinite int int

text \<open>
  A cell of a pandas column as the source sees it after \<open>apply\<close> has boxed it:
  a Python \<open>int\<close>, a \<open>float\<close>, a \<open>str\<close> (a list of ASCII characters), or
  \<open>None\<close>. Both \<open>None\<close> and the float NaN count as missing.
\<close>

datatype cell = CInt int | CFloat pyfloat | CStr string | CNone

definition is_missing :: "cell \<Rightarrow> bool" where
  "is_missing c = (c = CNone \<or> c = CFloat FNaN)"

datatype error = KeyError string | ValueError | OverflowError | TypeError

section \<open>Python's \<open>int()\<close> and \<open>str()\<close>\<close>

text \<open>
  Two notions of whitespace on ASCII text: \<open>str.strip()\<close> removes the characters
  that \<open>str.isspace\<close> accepts, which include the separators 0x1C to 0x1F; the integer
  parser behind \<open>int()\<close> skips only tab, the line controls 0x0A to 0x0D and the
  space.
\<close>

definition is_space :: "char \<Rightarrow> bool" where
  "is_space c = ((of_char c :: nat) \<in> {9, 10, 11, 12, 13, 28, 29, 30, 31, 32})"

definition is_c_space :: "char \<Rightarrow> bool" where
  "is_c_space c = ((of_char c :: nat) \<in> {9, 10, 11, 12, 13, 32})"

definition is_digit :: "char \<Rightarrow> bool" where
  "is_digit c = (48 \<le> (of_char c :: nat) \<and> (of_char c :: nat) \<le> 57)"

definition digit_val :: "char \<Rightarrow> nat" where
  "digit_val c = of_char c - 48"

definition digit_char :: "nat \<Rightarrow> char" where
  "digit_char d = char_of (48 + d)"

text \<open>Removal of the characters that satisfy \<open>P\<close> at both ends.\<close>

definition strip_by :: "(char \<Rightarrow> bool) \<Rightarrow> string \<Rightarrow> string" where
  "strip_by P s = rev (dropWhile P (rev (dropWhile P s)))"

text \<open>\<open>s.strip()\<close>: whitespace removed at both ends.\<close>

definition py_strip :: "string \<Rightarrow> string" where
  "py_strip s = strip_by is_space s"

text \<open>\<open>s.split(",")[0]\<close>: everything before the first comma, the whole string if
  there is none.\<close>

definition split_first :: "string \<Rightarrow> string" where
  "split_first s = takeWhile (\<lambda>c. c \<noteq> CHR '','') s"

text \<open>
  The digit loop of the decimal literal parser: digits, with single underscores allowed
  between them. \<open>prev\<close> is the character read before, \<open>acc\<close> the value so far.
\<close>

fun scan_digits :: "char \<Rightarrow> nat \<Rightarrow> string \<Rightarrow> nat option" where
  "scan_digits prev acc [] = (if prev = CHR ''_'' then None else Some acc)"
| "scan_digits prev acc (c # cs) =
     (if c = CHR ''_'' then (if prev = CHR ''_'' then None else scan_digits c acc cs)
      else if is_digit c then scan_digits c (10 * acc + digit_val c) cs
      else None)"

definition parse_digits :: "string \<Rightarrow> nat option" where
  "parse_digits body =
     (case body of [] \<Rightarrow> None
      | c # cs \<Rightarrow> if c = CHR ''_'' then None else scan_digits (CHR 0x00) 0 body)"

text \<open>\<open>int(s)\<close> for a string: the parser's whitespace is skipped at both ends, then
  an optional sign and the digits; anything else is a ValueError (\<open>None\<close> here).\<close>

definition int_of_string :: "string \<Rightarrow> int option" where
  "int_of_string s =
     (case strip_by is_c_space s of [] \<Rightarrow> None
      | c # cs \<Rightarrow>
          if c = CHR ''-'' then map_option (\<lambda>n. - int n) (parse_digits cs)
          else if c = CHR ''+'' then map_option int (parse_digits cs)
          else map_option int (parse_digits (c # cs)))"

text \<open>\<open>int(x)\<close> for a finite float: truncation towards zero.\<close>

definition trunc_float :: "int \<Rightarrow> int \<Rightarrow> int" where
  "trunc_float m e =
     (if 0 \<le> e then m * 2 ^ nat e
      else if 0 \<le> m then m div 2 ^ nat (- e)
      else - ((- m) div 2 ^ nat (- e)))"

definition py_int :: "cell \<Rightarrow> error + int" where
  "py_int x =
     (case x of
        CInt n \<Rightarrow> Inr n
      | CFloat FNaN \<Rightarrow> Inl ValueError
      | CFloat FPosInf \<Rightarrow> Inl OverflowError
      | CFloat FNegInf \<Rightarrow> Inl OverflowError
      | CFloat (FFinite m e) \<Rightarrow> Inr (trunc_float m e)
      | CStr s \<Rightarrow> (case int_of_string s of None \<Rightarrow> Inl ValueError | Some n \<Rightarrow> Inr n)
      | CNone \<Rightarrow> Inl TypeError)"

text \<open>\<open>str(n)\<close> for an integer: its decimal digits, with a minus sign when negative.\<close>

fun str_of_nat :: "nat \<Rightarrow> string" where
  "str_of_nat n =
     (if n < 10 then [digit_char n] else str_of_nat (n div 10) @ [digit_char (n mod 10)])"

declare str_of_nat.simps [simp del]

definition str_of_int :: "int \<Rightarrow> string" where
  "str_of_int i = (if i < 0 then CHR ''-'' # str_of_nat (nat (- i)) else str_of_nat (nat i))"

section \<open>PostalCodeFormatter\<close>

text \<open>
  \<open>np.isnan(x)\<close> on a scalar. A float is tested as it is. A Python \<open>int\<close> is
  converted to an array element first: one that fits the signed or the unsigned 64-bit
  integers is converted and is no NaN; any other becomes an object, for which
  \<open>isnan\<close> is not defined (TypeError), as it is not for a string or \<open>None\<close>.
\<close>

definition np_isnan :: "cell \<Rightarrow> error + bool" where
  "np_isnan x =
     (case x of
        CInt n \<Rightarrow> (if - (2 ^ 63) \<le> n \<and> n < 2 ^ 64 then Inr False else Inl TypeError)
      | CFloat f \<Rightarrow> Inr (f = FNaN)
      | CStr s \<Rightarrow> Inl TypeError
      | CNone \<Rightarrow> Inl TypeError)"

text \<open>
  The function applied to every cell by \<open>format_postal_codes\<close>:
  \<^verbatim>\<open>lambda x: int(x.split(",")[0].strip()) if isinstance(x, str) else (
      int(x) if isinstance(x, (int, float)) and not np.isnan(x) else np.nan)\<close>
  The test \<open>np.isnan(x)\<close> is reached by every \<open>int\<close> and every \<open>float\<close>, and by
  nothing else.
\<close>

definition is_number :: "cell \<Rightarrow> bool" where
  "is_number x = (case x of CInt n \<Rightarrow> True | CFloat f \<Rightarrow> True | _ \<Rightarrow> False)"

definition format_postal_code :: "cell \<Rightarrow> error + cell" where
  "format_postal_code x =
     (case x of
        CStr s \<Rightarrow> map_sum id CInt (py_int (CStr (py_strip (split_first s))))
      | _ \<Rightarrow>
          if is_number x
          then (case np_isnan x of
                  Inl e \<Rightarrow> Inl e
                | Inr nan \<Rightarrow> if \<not> nan then map_sum id CInt (py_int x) else Inr (CFloat FNaN))
          else Inr (CFloat FNaN))"

text \<open>\<open>Series.apply(f)\<close>: \<open>f\<close> on every cell in row order; the first exception ends it.\<close>

fun apply_series :: "(cell \<Rightarrow> error + cell) \<Rightarrow> cell list \<Rightarrow> error + cell list" where
  "apply_series f [] = Inr []"
| "apply_series f (x # xs) =
     (case f x of Inl e \<Rightarrow> Inl e
      | Inr y \<Rightarrow> (case apply_series f xs of Inl e \<Rightarrow> Inl e | Inr ys \<Rightarrow> Inr (y # ys)))"

section \<open>PostalDataProcessor\<close>

text \<open>
  A DataFrame is its columns in order, each a name and the cells of the rows from first
  to last. \<open>df[c]\<close> reads a column and raises KeyError when there is none;
  \<open>df[c] = values\<close> replaces the column of that name where it stands, or appends a new
  last column.
\<close>

type_synonym dataframe = "(string \<times> cell list) list"

definition get_column :: "dataframe \<Rightarrow> string \<Rightarrow> error + cell list" where
  "get_column df c = (case map_of df c of None \<Rightarrow> Inl (KeyError c) | Some vs \<Rightarrow> Inr vs)"

definition set_column :: "dataframe \<Rightarrow> string \<Rightarrow> cell list \<Rightarrow> dataframe" where
  "set_column df c vs = AList.update c vs df"

text \<open>One row of \<open>postal_data_dict\<close>: the three demographic values of an area.\<close>

record demographic =
  Population :: cell
  Wealth_Index :: cell
  Density :: cell

text \<open>
  The state of a \<open>PostalDataProcessor\<close>: the listings, the demographic dictionary keyed
  by area code, and the loaded JSON object from area code (a string key) to the list of
  its postal codes (strings), in the order of the file.
\<close>

record processor =
  property_data :: dataframe
  postal_data_dict :: "int \<rightharpoonup> demographic"
  ins_to_postal :: "(string \<times> string list) list"

text \<open>
  \<open>_get_ins_code\<close>: the loop over \<open>ins_to_postal.items()\<close>. The conversion
  \<open>str(int(postal_code))\<close> is evaluated inside the loop, once per entry reached, so an
  empty mapping returns \<open>None\<close> whatever the postal code is.
\<close>

fun get_ins_code :: "(string \<times> string list) list \<Rightarrow> cell \<Rightarrow> error + cell" where
  "get_ins_code [] postal_code = Inr CNone"
| "get_ins_code ((ins_code, postal_list) # rest) postal_code =
     (case py_int postal_code of
        Inl e \<Rightarrow> Inl e
      | Inr p \<Rightarrow>
          if str_of_int p \<in> set postal_list
          then (case int_of_string ins_code of None \<Rightarrow> Inl ValueError | Some a \<Rightarrow> Inr (CInt a))
          else get_ins_code rest postal_code)"

text \<open>
  The integer key that a cell is equal to as a dictionary key: an \<open>int\<close>, or a float
  with an integral value (\<open>100.0 == 100\<close> and both hash alike). NaN, \<open>None\<close> and
  strings equal no integer key.
\<close>

definition dict_key :: "cell \<Rightarrow> int option" where
  "dict_key c =
     (case c of
        CInt a \<Rightarrow> Some a
      | CFloat (FFinite m e) \<Rightarrow>
          (if 0 \<le> e then Some (m * 2 ^ nat e)
           else if m mod 2 ^ nat (- e) = 0 then Some (m div 2 ^ nat (- e)) else None)
      | _ \<Rightarrow> None)"

text \<open>\<open>postal_data_dict.get(ins_code, {})\<close>: the empty dictionary is \<open>None\<close> here.\<close>

definition dict_get :: "(int \<rightharpoonup> demographic) \<Rightarrow> cell \<Rightarrow> demographic option" where
  "dict_get d ins_code = (case dict_key ins_code of None \<Rightarrow> None | Some a \<Rightarrow> d a)"

definition get_population :: "(int \<rightharpoonup> demographic) \<Rightarrow> cell \<Rightarrow> cell" where
  "get_population d ins_code =
     (case dict_get d ins_code of None \<Rightarrow> CNone | Some r \<Rightarrow> Population r)"

definition get_wealth_index :: "(int \<rightharpoonup> demographic) \<Rightarrow> cell \<Rightarrow> cell" where
  "get_wealth_index d ins_code =
     (case dict_get d ins_code of None \<Rightarrow> CNone | Some r \<Rightarrow> Wealth_Index r)"

definition get_density :: "(int \<rightharpoonup> demographic) \<Rightarrow> cell \<Rightarrow> cell" where
  "get_density d ins_code =
     (case dict_get d ins_code of None \<Rightarrow> CNone | Some r \<Rightarrow> Density r)"

text \<open>
  \<open>enrich_property_data\<close>: four column assignments on \<open>self.property_data\<close>, each
  reading its source column from the table as it is at that moment. The result is what
  the call returns or raises, together with the processor afterwards.
\<close>

definition enrich_property_data :: "processor \<Rightarrow> (error + dataframe) \<times> processor" where
  "enrich_property_data self =
     (case get_column (property_data self) ''postal_code'' of
        Inl e \<Rightarrow> (Inl e, self)
      | Inr postal \<Rightarrow>
     (case apply_series (get_ins_code (ins_to_postal self)) postal of
        Inl e \<Rightarrow> (Inl e, self)
      | Inr ins \<Rightarrow>
     let df1 = set_column (property_data self) ''INS_Code'' ins in
     (case get_column df1 ''INS_Code'' of
        Inl e \<Rightarrow> (Inl e, self\<lparr>property_data := df1\<rparr>)
      | Inr c1 \<Rightarrow>
     let df2 = set_column df1 ''Population'' (map (get_population (postal_data_dict self)) c1) in
     (case get_column df2 ''INS_Code'' of
        Inl e \<Rightarrow> (Inl e, self\<lparr>property_data := df2\<rparr>)
      | Inr c2 \<Rightarrow>
     let df3 = set_column df2 ''Wealth_Index'' (map (get_wealth_index (postal_data_dict self)) c2) in
     (case get_column df3 ''INS_Code'' of
        Inl e \<Rightarrow> (Inl e, self\<lparr>property_data := df3\<rparr>)
      | Inr c3 \<Rightarrow>
     let df4 = set_column df3 ''Density'' (map (get_density (postal_data_dict self)) c3) in
     (Inr df4, self\<lparr>property_data := df4\<rparr>))))))"

section \<open>PropertyDataMerger\<close>

text \<open>
  A row of the names table: its three columns. The type of the postal code is left open:
  it is a raw cell before formatting and an optional key (\<open>None\<close> for NaN) when grouped.
\<close>

record 'p name_row =
  postal_code :: 'p
  TX_FST_NAME :: string
  MS_FREQUENCY :: int

text \<open>
  \<open>groupby("postal_code")\<close>: one group per distinct key, keys ascending, rows of a
  group in table order; rows whose key is NaN belong to no group.
\<close>

definition group_keys :: "('k::linorder) option name_row list \<Rightarrow> 'k list" where
  "group_keys rows = sort (remdups (List.map_filter postal_code rows))"

definition groupby ::
  "('k::linorder) option name_row list \<Rightarrow> ('k \<times> 'k option name_row list) list" where
  "groupby rows = map (\<lambda>k. (k, filter (\<lambda>r. postal_code r = Some k) rows)) (group_keys rows)"

text \<open>
  \<open>group.nlargest(n, "MS_FREQUENCY")\<close>: the first \<open>n\<close> rows in descending order of
  frequency, equal frequencies in table order (\<open>keep="first"\<close>).
\<close>

definition nlargest :: "nat \<Rightarrow> 'p name_row list \<Rightarrow> 'p name_row list" where
  "nlargest n g = take n (sort_key (\<lambda>r. - MS_FREQUENCY r) g)"

text \<open>The first statement: the top five of every group, the groups one after another.\<close>

definition top_names :: "('k::linorder) option name_row list \<Rightarrow> 'k option name_row list" where
  "top_names rows = concat (map (\<lambda>(k, g). nlargest 5 g) (groupby rows))"

text \<open>\<open>f"{row['TX_FST_NAME']} ({row['MS_FREQUENCY']})"\<close> and \<open>", ".join(...)\<close>.\<close>

definition render_row :: "'p name_row \<Rightarrow> string" where
  "render_row r = TX_FST_NAME r @ '' ('' @ str_of_int (MS_FREQUENCY r) @ '')''"

fun join :: "string \<Rightarrow> string list \<Rightarrow> string" where
  "join sep [] = []"
| "join sep [x] = x"
| "join sep (x # y # ys) = x @ sep @ join sep (y # ys)"

text \<open>The second statement: the table of top names grouped again, one text per key.\<close>

definition top_names_pivot :: "('k::linorder) option name_row list \<Rightarrow> ('k \<times> string) list" where
  "top_names_pivot rows =
     map (\<lambda>(k, g). (k, join '', '' (map render_row g))) (groupby (top_names rows))"

text \<open>
  \<open>left.merge(right, on="postal_code", how="left")\<close>: the left rows in order, each once
  for every right row of the same key, or once with a missing right value when there is
  none. A left row is its key and the rest of its columns.
\<close>

definition merge_left ::
  "('k option \<times> 'a) list \<Rightarrow> ('k \<times> string) list \<Rightarrow> ('k option \<times> 'a \<times> string option) list" where
  "merge_left left right =
     concat (map (\<lambda>(key, row).
        (case filter (\<lambda>(k, s). Some k = key) right of
           [] \<Rightarrow> [(key, row, None)]
         | ms \<Rightarrow> map (\<lambda>(k, s). (key, row, Some s)) ms)) left)"

definition merge_with_top_names ::
  "(('k::linorder) option \<times> 'a) list \<Rightarrow> 'k option name_row list
     \<Rightarrow> ('k option \<times> 'a \<times> string option) list" where
  "merge_with_top_names properties names = merge_left properties (top_names_pivot names)"

section \<open>The main script, steps 2 and 3\<close>

text \<open>
  Step 2 formats the postal codes of the raw names table and saves it; step 3 reads that
  file back and merges. A formatted cell is an integer or NaN, which is the key or the
  missing key of the table read back.
\<close>

definition format_postal_codes :: "cell name_row list \<Rightarrow> error + cell name_row list" where
  "format_postal_codes df =
     (case apply_series format_postal_code (map postal_code df) of
        Inl e \<Rightarrow> Inl e
      | Inr vs \<Rightarrow> Inr (map (\<lambda>(r, v). r\<lparr>postal_code := v\<rparr>) (zip df vs)))"

definition read_key :: "cell \<Rightarrow> int option" where
  "read_key c = (case c of CInt n \<Rightarrow> Some n | _ \<Rightarrow> None)"

definition read_names :: "cell name_row list \<Rightarrow> int option name_row list" where
  "read_names df =
     map (\<lambda>r. \<lparr>postal_code = read_key (postal_code r), TX_FST_NAME = TX_FST_NAME r,
               MS_FREQUENCY = MS_FREQUENCY r\<rparr>) df"

definition main_merge ::
  "(int option \<times> 'a) list \<Rightarrow> cell name_row list
     \<Rightarrow> error + (int option \<times> 'a \<times> string option) list" where
  "main_merge properties raw_names =
     (case format_postal_codes raw_names of
        Inl e \<Rightarrow> Inl e
      | Inr formatted_names \<Rightarrow> Inr (merge_with_top_names properties (read_names formatted_names)))"

definition main_top_names :: "cell name_row list \<Rightarrow> error + (int \<times> string) list" where
  "main_top_names raw_names =
     (case format_postal_codes raw_names of
        Inl e \<Rightarrow> Inl e
      | Inr formatted_names \<Rightarrow> Inr (top_names_pivot (read_names formatted_names)))"

section \<open>Derived notions used in the statements\<close>

text \<open>
  The listings after the four assignments of \<open>enrich_property_data\<close>, given the
  column of area codes computed by the first.
\<close>

definition enriched :: "dataframe \<Rightarrow> (int \<rightharpoonup> demographic) \<Rightarrow> cell list \<Rightarrow> dataframe" where
  "enriched df d ins =
     set_column (set_column (set_column (set_column df ''INS_Code'' ins)
       ''Population'' (map (get_population d) ins))
       ''Wealth_Index'' (map (get_wealth_index d) ins))
       ''Density'' (map (get_density d) ins)"

definition derived_columns :: "string list" where
  "derived_columns = [''INS_Code'', ''Population'', ''Wealth_Index'', ''Density'']"

section \<open>Decimal text of an integer and its parse\<close>


















section \<open>The postal code formatter\<close>












section \<open>The area code resolver\<close>





section \<open>Enrichment\<close>

lemma apply_series_Inl:
  "\<lbrakk>x \<in> set xs; f x = Inl e\<rbrakk> \<Longrightarrow> \<exists>e'. apply_series f xs = Inl e'"
  by (induction xs) (auto split: sum.splits)

lemma apply_series_Inr:
  "apply_series f xs = Inr ys
   \<Longrightarrow> length ys = length xs \<and> (\<forall>i<length xs. f (xs ! i) = Inr (ys ! i))"
proof (induction xs arbitrary: ys)
  case Nil
  then show ?case by simp
next
  case (Cons x xs)
  then obtain y ys' where y: "f x = Inr y" "apply_series f xs = Inr ys'" "ys = y # ys'"
    by (auto split: sum.splits)
  with Cons.IH[of ys'] show ?case
    by (auto simp: nth_Cons split: nat.splits)
qed

lemma get_column_set_column:
  "get_column (set_column df c vs) c' = (if c' = c then Inr vs else get_column df c')"
  by (simp add: get_column_def set_column_def update_conv')

lemma get_column_absent:
  "c \<notin> set (map fst df) \<Longrightarrow> get_column df c = Inl (KeyError c)"
  by (simp add: get_column_def map_of_eq_None_iff[THEN iffD2])

lemma set_column_nth_other:
  "\<lbrakk>j < length df; fst (df ! j) \<noteq> c\<rbrakk> \<Longrightarrow> j < length (set_column df c vs) \<and> set_column df c vs ! j = df ! j"
  unfolding set_column_def
proof (induction df arbitrary: j)
  case Nil
  then show ?case by simp
next
  case (Cons a df)
  then show ?case by (cases j) auto
qed

lemma set_column_names:
  "map fst (set_column df c vs) = map fst df @ filter (\<lambda>n. n \<notin> set (map fst df)) [c]"
  by (simp add: set_column_def update_keys)

lemma get_ins_code_nan: "m \<noteq> [] \<Longrightarrow> get_ins_code m (CFloat FNaN) = Inl ValueError"
  by (cases m) (auto simp: py_int_def)

lemma dict_get_missing: "is_missing a \<Longrightarrow> dict_get d a = None"
  by (auto simp: is_missing_def dict_get_def dict_key_def)

lemma enrich_property_data_cases:
  "enrich_property_data self =
     (case get_column (property_data self) ''postal_code'' of
        Inl e \<Rightarrow> (Inl e, self)
      | Inr postal \<Rightarrow>
          (case apply_series (get_ins_code (ins_to_postal self)) postal of
             Inl e \<Rightarrow> (Inl e, self)
           | Inr ins \<Rightarrow>
               (Inr (enriched (property_data self) (postal_data_dict self) ins),
                self\<lparr>property_data := enriched (property_data self) (postal_data_dict self) ins\<rparr>)))"
  by (simp add: enrich_property_data_def enriched_def get_column_set_column Let_def
      split: sum.splits)


lemma set_column_keeps:
  assumes "j < length df" "fst (df ! j) \<noteq> c"
  shows "j < length (set_column df c vs)" "set_column df c vs ! j = df ! j"
    "fst (set_column df c vs ! j) \<noteq> c"
  using set_column_nth_other[OF assms] assms(2) by simp_all

lemma enriched_keeps:
  assumes "j < length df" "fst (df ! j) \<notin> set derived_columns"
  shows "j < length (enriched df d ins) \<and> enriched df d ins ! j = df ! j"
proof -
  let ?d1 = "set_column df ''INS_Code'' ins"
  let ?d2 = "set_column ?d1 ''Population'' (map (get_population d) ins)"
  let ?d3 = "set_column ?d2 ''Wealth_Index'' (map (get_wealth_index d) ins)"
  have n: "fst (df ! j) \<noteq> ''INS_Code''" "fst (df ! j) \<noteq> ''Population''"
    "fst (df ! j) \<noteq> ''Wealth_Index''" "fst (df ! j) \<noteq> ''Density''"
    using assms(2) by (auto simp: derived_columns_def)
  have 1: "j < length ?d1" "?d1 ! j = df ! j"
    using set_column_keeps[OF assms(1) n(1)] by simp_all
  have 2: "j < length ?d2" "?d2 ! j = df ! j"
    using set_column_keeps[OF 1(1), of "''Population''"] n(2) 1(2) by simp_all
  have 3: "j < length ?d3" "?d3 ! j = df ! j"
    using set_column_keeps[OF 2(1), of "''Wealth_Index''"] n(3) 2(2) by simp_all
  show ?thesis
    using set_column_keeps[OF 3(1), of "''Density''"] n(4) 3(2) by (simp add: enriched_def)
qed

lemma enriched_names:
  "map fst (enriched df d ins)
     = map fst df @ filter (\<lambda>n. n \<notin> set (map fst df)) derived_columns"
  by (simp add: enriched_def derived_columns_def set_column_names)

lemma enriched_columns:
  "get_column (enriched df d ins) ''INS_Code'' = Inr ins"
  "get_column (enriched df d ins) ''Population'' = Inr (map (get_population d) ins)"
  "get_column (enriched df d ins) ''Wealth_Index'' = Inr (map (get_wealth_index d) ins)"
  "get_column (enriched df d ins) ''Density'' = Inr (map (get_density d) ins)"
  by (simp_all add: enriched_def get_column_set_column)

lemma enriched_other_column:
  "c \<notin> set derived_columns \<Longrightarrow> get_column (enriched df d ins) c = get_column df c"
  by (simp add: enriched_def derived_columns_def get_column_set_column)

text \<open>
  C9. When the listings have no \<open>postal_code\<close> column, enrichment raises the KeyError
  that names \<open>postal_code\<close> and leaves the processor, hence the listings, exactly as
  they were: no column has been added and, whatever the mapping and the rows are, no
  row has been resolved.
\<close>

theorem enrich_without_postal_code_column:
  "''postal_code'' \<notin> set (map fst (property_data self))
   \<Longrightarrow> enrich_property_data self = (Inl (KeyError ''postal_code''), self)"
  by (simp add: enrich_property_data_cases get_column_absent)

theorem enrich_without_postal_code_column_witness:
  "''postal_code'' \<notin> set (map fst [(''price'', [CInt 250000, CInt 310000]), (''zip'', [CInt 1000, CFloat FNaN])])
   \<and> enrich_property_data
        \<lparr>property_data = [(''price'', [CInt 250000, CInt 310000]), (''zip'', [CInt 1000, CFloat FNaN])],
         postal_data_dict = Map.empty, ins_to_postal = [(''100'', [''1000''])]\<rparr>
      = (Inl (KeyError ''postal_code''),
         \<lparr>property_data = [(''price'', [CInt 250000, CInt 310000]), (''zip'', [CInt 1000, CFloat FNaN])],
          postal_data_dict = Map.empty, ins_to_postal = [(''100'', [''1000''])]\<rparr>)"
  using enrich_without_postal_code_column[of
      "\<lparr>property_data = [(''price'', [CInt 250000, CInt 310000]), (''zip'', [CInt 1000, CFloat FNaN])],
        postal_data_dict = Map.empty, ins_to_postal = [(''100'', [''1000''])]\<rparr>"]
  by simp

text \<open>
  C2 (as amended). Looking up a missing area code, \<open>None\<close> or NaN, gives a missing
  population, wealth index and density. A missing postal code is not set aside: the
  resolver is called on it and, the mapping having an entry, raises ValueError; so
  enrichment of listings that hold a NaN postal code raises and leaves the processor
  as it was.
\<close>

theorem missing_area_code_lookup:
  "(is_missing a \<longrightarrow>
      get_population d a = CNone \<and> get_wealth_index d a = CNone \<and> get_density d a = CNone)
   \<and> (m \<noteq> [] \<longrightarrow> get_ins_code m (CFloat FNaN) = Inl ValueError)
   \<and> (get_column (property_data self) ''postal_code'' = Inr postal
        \<and> CFloat FNaN \<in> set postal \<and> ins_to_postal self \<noteq> []
      \<longrightarrow> (\<exists>e. enrich_property_data self = (Inl e, self)))"
proof (intro conjI impI)
  assume "is_missing a"
  then show "get_population d a = CNone" "get_wealth_index d a = CNone" "get_density d a = CNone"
    by (simp_all add: get_population_def get_wealth_index_def get_density_def dict_get_missing)
next
  assume "m \<noteq> []"
  then show "get_ins_code m (CFloat FNaN) = Inl ValueError"
    by (rule get_ins_code_nan)
next
  assume h: "get_column (property_data self) ''postal_code'' = Inr postal
        \<and> CFloat FNaN \<in> set postal \<and> ins_to_postal self \<noteq> []"
  then obtain e where "apply_series (get_ins_code (ins_to_postal self)) postal = Inl e"
    using apply_series_Inl[of "CFloat FNaN" postal "get_ins_code (ins_to_postal self)"]
      get_ins_code_nan[of "ins_to_postal self"] by blast
  with h show "\<exists>e. enrich_property_data self = (Inl e, self)"
    by (simp add: enrich_property_data_cases)
qed

theorem missing_area_code_lookup_witness:
  "is_missing CNone \<and> get_population Map.empty CNone = CNone
   \<and> [(''100'', [''1000''])] \<noteq> []
   \<and> get_column [(''postal_code'', [CInt 1000, CFloat FNaN])] ''postal_code''
        = Inr [CInt 1000, CFloat FNaN]
   \<and> CFloat FNaN \<in> set [CInt 1000, CFloat FNaN]
   \<and> (\<exists>e. enrich_property_data
          \<lparr>property_data = [(''postal_code'', [CInt 1000, CFloat FNaN])],
           postal_data_dict = Map.empty, ins_to_postal = [(''100'', [''1000''])]\<rparr>
        = (Inl e,
           \<lparr>property_data = [(''postal_code'', [CInt 1000, CFloat FNaN])],
            postal_data_dict = Map.empty, ins_to_postal = [(''100'', [''1000''])]\<rparr>))"
  using missing_area_code_lookup[of CNone Map.empty "[(''100'', [''1000''])]"
      "\<lparr>property_data = [(''postal_code'', [CInt 1000, CFloat FNaN])],
        postal_data_dict = Map.empty, ins_to_postal = [(''100'', [''1000''])]\<rparr>"
      "[CInt 1000, CFloat FNaN]"]
  by (simp add: is_missing_def get_column_def)

text \<open>
  C2 as stated fails: with one NaN postal code among the listings and a mapping of one
  entry, enrichment raises ValueError.
\<close>

theorem enrich_nan_postal_code_raises:
  "fst (enrich_property_data
          \<lparr>property_data = [(''postal_code'', [CInt 1000, CFloat FNaN])],
           postal_data_dict = Map.empty, ins_to_postal = [(''100'', [''1000''])]\<rparr>)
   = Inl ValueError"
  by code_simp


text \<open>
  C3 (as amended). When enrichment returns a table: the listings had a \<open>postal_code\<close>
  column, and the table returned is the processor's new table. Every column of the input
  that does not bear one of the four derived names stands where it stood with the cells
  it had. The column names are those of the input, in order, followed by the derived
  names the input did not have, in the order INS_Code, Population, Wealth_Index,
  Density; a derived name the input had keeps its place and its cells are replaced. The
  four derived columns have as many rows as \<open>postal_code\<close>, and row \<open>i\<close> of each is
  computed from row \<open>i\<close> of \<open>postal_code\<close> alone.
\<close>

theorem enrich_frame:
  assumes "enrich_property_data self = (Inr out, self')"
  shows "\<exists>postal ins.
      get_column (property_data self) ''postal_code'' = Inr postal
    \<and> self' = self\<lparr>property_data := out\<rparr>
    \<and> (\<forall>j<length (property_data self).
          fst (property_data self ! j) \<notin> set derived_columns
          \<longrightarrow> j < length out \<and> out ! j = property_data self ! j)
    \<and> (\<forall>c. c \<notin> set derived_columns \<longrightarrow> get_column out c = get_column (property_data self) c)
    \<and> map fst out = map fst (property_data self)
          @ filter (\<lambda>n. n \<notin> set (map fst (property_data self))) derived_columns
    \<and> length ins = length postal
    \<and> (\<forall>i<length postal. get_ins_code (ins_to_postal self) (postal ! i) = Inr (ins ! i))
    \<and> get_column out ''INS_Code'' = Inr ins
    \<and> get_column out ''Population'' = Inr (map (get_population (postal_data_dict self)) ins)
    \<and> get_column out ''Wealth_Index'' = Inr (map (get_wealth_index (postal_data_dict self)) ins)
    \<and> get_column out ''Density'' = Inr (map (get_density (postal_data_dict self)) ins)"
proof -
  from assms obtain postal where
    postal: "get_column (property_data self) ''postal_code'' = Inr postal"
    by (auto simp: enrich_property_data_cases split: sum.splits)
  from assms postal obtain ins where
    ins: "apply_series (get_ins_code (ins_to_postal self)) postal = Inr ins"
    by (auto simp: enrich_property_data_cases split: sum.splits)
  let ?df = "property_data self" and ?d = "postal_data_dict self"
  have out: "out = enriched ?df ?d ins" and self': "self' = self\<lparr>property_data := out\<rparr>"
    using assms postal ins by (auto simp: enrich_property_data_cases)
  have keep: "\<forall>j<length ?df. fst (?df ! j) \<notin> set derived_columns
      \<longrightarrow> j < length out \<and> out ! j = ?df ! j"
    unfolding out using enriched_keeps by blast
  have other: "\<forall>c. c \<notin> set derived_columns \<longrightarrow> get_column out c = get_column ?df c"
    unfolding out using enriched_other_column by blast
  have names: "map fst out = map fst ?df @ filter (\<lambda>n. n \<notin> set (map fst ?df)) derived_columns"
    unfolding out by (rule enriched_names)
  have rows: "length ins = length postal"
    "\<forall>i<length postal. get_ins_code (ins_to_postal self) (postal ! i) = Inr (ins ! i)"
    using apply_series_Inr[OF ins] by simp_all
  show ?thesis
    using postal self' keep other names rows enriched_columns[of ?df ?d ins, folded out]
    by blast
qed

theorem enrich_frame_witness:
  "enrich_property_data
      \<lparr>property_data = [(''price'', [CInt 250000, CInt 310000]), (''postal_code'', [CInt 1000, CInt 7])],
       postal_data_dict = [100 \<mapsto> \<lparr>Population = CInt 5000, Wealth_Index = CInt 2, Density = CInt 300\<rparr>],
       ins_to_postal = [(''100'', [''1000'', ''1010''])]\<rparr>
    = (Inr [(''price'', [CInt 250000, CInt 310000]), (''postal_code'', [CInt 1000, CInt 7]),
            (''INS_Code'', [CInt 100, CNone]), (''Population'', [CInt 5000, CNone]),
            (''Wealth_Index'', [CInt 2, CNone]), (''Density'', [CInt 300, CNone])],
       \<lparr>property_data = [(''price'', [CInt 250000, CInt 310000]), (''postal_code'', [CInt 1000, CInt 7]),
            (''INS_Code'', [CInt 100, CNone]), (''Population'', [CInt 5000, CNone]),
            (''Wealth_Index'', [CInt 2, CNone]), (''Density'', [CInt 300, CNone])],
       postal_data_dict = [100 \<mapsto> \<lparr>Population = CInt 5000, Wealth_Index = CInt 2, Density = CInt 300\<rparr>],
       ins_to_postal = [(''100'', [''1000'', ''1010''])]\<rparr>)
   \<and> get_column [(''price'', [CInt 250000, CInt 310000]), (''postal_code'', [CInt 1000, CInt 7]),
            (''INS_Code'', [CInt 100, CNone]), (''Population'', [CInt 5000, CNone]),
            (''Wealth_Index'', [CInt 2, CNone]), (''Density'', [CInt 300, CNone])] ''price''
       = get_column [(''price'', [CInt 250000, CInt 310000]), (''postal_code'', [CInt 1000, CInt 7])] ''price''"
proof -
  let ?self = "\<lparr>property_data = [(''price'', [CInt 250000, CInt 310000]), (''postal_code'', [CInt 1000, CInt 7])],
       postal_data_dict = [100 \<mapsto> \<lparr>Population = CInt 5000, Wealth_Index = CInt 2, Density = CInt 300\<rparr>],
       ins_to_postal = [(''100'', [''1000'', ''1010''])]\<rparr>"
  let ?out = "[(''price'', [CInt 250000, CInt 310000]), (''postal_code'', [CInt 1000, CInt 7]),
            (''INS_Code'', [CInt 100, CNone]), (''Population'', [CInt 5000, CNone]),
            (''Wealth_Index'', [CInt 2, CNone]), (''Density'', [CInt 300, CNone])]"
  have s: "str_of_int 1000 = ''1000''" "str_of_int 7 = ''7''" "int_of_string ''100'' = Some 100"
    by code_simp+
  have run: "enrich_property_data ?self = (Inr ?out, ?self\<lparr>property_data := ?out\<rparr>)"
    by (simp add: enrich_property_data_cases enriched_def get_column_def set_column_def
        py_int_def s get_population_def get_wealth_index_def get_density_def dict_get_def
        dict_key_def)
  have "''price'' \<notin> set derived_columns"
    by (simp add: derived_columns_def)
  with enrich_frame[OF run] have "get_column ?out ''price'' = get_column (property_data ?self) ''price''"
    by blast
  with run show ?thesis by simp
qed

text \<open>
  C3 as stated fails on listings that already have a column of a derived name: its
  cells are replaced, and three columns are appended, not four.
\<close>

theorem enrich_overwrites_existing_column:
  "fst (enrich_property_data
          \<lparr>property_data = [(''Population'', [CInt 12]), (''postal_code'', [CInt 1000])],
           postal_data_dict = Map.empty, ins_to_postal = [(''100'', [''1000''])]\<rparr>)
   = Inr [(''Population'', [CNone]), (''postal_code'', [CInt 1000]), (''INS_Code'', [CInt 100]),
          (''Wealth_Index'', [CNone]), (''Density'', [CNone])]"
  by code_simp

section \<open>Grouping and the top names\<close>

lemma set_group_keys:
  "set (group_keys rows) = {k. \<exists>r\<in>set rows. postal_code r = Some k}"
  by (force simp: group_keys_def map_filter_def image_iff)

lemma distinct_group_keys: "distinct (group_keys rows)"
  by (simp add: group_keys_def)

lemma sorted_group_keys: "sorted (group_keys rows)"
  by (simp add: group_keys_def)

lemma group_keys_cong:
  assumes "set (group_keys rows) = set (group_keys rows')"
  shows "group_keys rows = group_keys rows'"
  using assms sorted_group_keys distinct_group_keys
  by (metis sorted_distinct_set_unique)

lemma length_nlargest: "length (nlargest n g) = min n (length g)"
  by (simp add: nlargest_def)

lemma set_nlargest: "set (nlargest n g) \<subseteq> set g"
  using set_take_subset[of n "sort_key (\<lambda>r. - MS_FREQUENCY r) g"] by (simp add: nlargest_def)

lemma nlargest_nonempty: "\<lbrakk>0 < n; g \<noteq> []\<rbrakk> \<Longrightarrow> nlargest n g \<noteq> []"
  using length_nlargest[of n g] by (auto simp: min_def split: if_splits)

lemma sorted_nlargest:
  "sorted_wrt (\<lambda>a b. MS_FREQUENCY b \<le> MS_FREQUENCY a) (nlargest n g)"
proof -
  have "sorted (map (\<lambda>r. - MS_FREQUENCY r) (take n (sort_key (\<lambda>r. - MS_FREQUENCY r) g)))"
    by (simp add: take_map[symmetric] sorted_wrt_take)
  then show ?thesis
    by (simp add: nlargest_def sorted_map)
qed

lemma filter_take_prefix: "\<exists>j. filter P (take n xs) = take j (filter P xs)"
proof -
  have "filter P xs = filter P (take n xs) @ filter P (drop n xs)"
    by (metis append_take_drop_id filter_append)
  then have "take (length (filter P (take n xs))) (filter P xs) = filter P (take n xs)"
    by simp
  then show ?thesis by metis
qed

lemma nlargest_stable:
  "\<exists>j. filter (\<lambda>r. MS_FREQUENCY r = f) (nlargest n g) = take j (filter (\<lambda>r. MS_FREQUENCY r = f) g)"
proof -
  have "filter (\<lambda>r. - MS_FREQUENCY r = - f) (sort_key (\<lambda>r. - MS_FREQUENCY r) g)
      = filter (\<lambda>r. - MS_FREQUENCY r = - f) g"
    by (rule sort_key_stable)
  then have "filter (\<lambda>r. MS_FREQUENCY r = f) (sort_key (\<lambda>r. - MS_FREQUENCY r) g)
      = filter (\<lambda>r. MS_FREQUENCY r = f) g"
    by simp
  then show ?thesis
    using filter_take_prefix[of "\<lambda>r. MS_FREQUENCY r = f" n "sort_key (\<lambda>r. - MS_FREQUENCY r) g"]
    by (simp add: nlargest_def)
qed

lemma nlargest_top:
  "\<exists>rest. mset g = mset (nlargest n g) + mset rest
     \<and> (\<forall>a\<in>set (nlargest n g). \<forall>b\<in>set rest. MS_FREQUENCY b \<le> MS_FREQUENCY a)"
proof -
  let ?s = "sort_key (\<lambda>r. - MS_FREQUENCY r) g"
  have "sorted (map (\<lambda>r. - MS_FREQUENCY r) (take n ?s @ drop n ?s))"
    by simp
  then have "\<forall>a\<in>set (take n ?s). \<forall>b\<in>set (drop n ?s). MS_FREQUENCY b \<le> MS_FREQUENCY a"
    unfolding map_append sorted_append by auto
  moreover have "mset g = mset (take n ?s) + mset (drop n ?s)"
    by (metis append_take_drop_id mset_append mset_sort)
  ultimately show ?thesis
    unfolding nlargest_def by blast
qed

lemma nlargest_all: "length g \<le> n \<Longrightarrow> mset (nlargest n g) = mset g"
  by (simp add: nlargest_def)

lemma concat_select:
  "distinct ks \<Longrightarrow>
     concat (map (\<lambda>k'. if k' = k then g k' else []) ks) = (if k \<in> set ks then g k else [])"
  by (induction ks) auto

lemma nlargest_group_key:
  assumes "r \<in> set (nlargest n (filter (\<lambda>r. postal_code r = Some k') rows))"
  shows "postal_code r = Some k'"
proof -
  have "r \<in> set (filter (\<lambda>r. postal_code r = Some k') rows)"
    using assms set_nlargest by (rule subsetD[rotated])
  then show ?thesis by simp
qed

lemma filter_nlargest_group:
  "filter (\<lambda>r. postal_code r = Some k) (nlargest n (filter (\<lambda>r. postal_code r = Some k') rows))
     = (if k' = k then nlargest n (filter (\<lambda>r. postal_code r = Some k) rows) else [])"
proof (cases "k' = k")
  case True
  have "filter (\<lambda>r. postal_code r = Some k) (nlargest n (filter (\<lambda>r. postal_code r = Some k) rows))
      = nlargest n (filter (\<lambda>r. postal_code r = Some k) rows)"
    by (rule filter_True, rule ballI) (rule nlargest_group_key)
  with True show ?thesis by simp
next
  case False
  have "filter (\<lambda>r. postal_code r = Some k) (nlargest n (filter (\<lambda>r. postal_code r = Some k') rows)) = []"
  proof (rule filter_False, rule ballI)
    fix r
    assume "r \<in> set (nlargest n (filter (\<lambda>r. postal_code r = Some k') rows))"
    then have "postal_code r = Some k'" by (rule nlargest_group_key)
    with False show "\<not> postal_code r = Some k" by simp
  qed
  with False show ?thesis by simp
qed

lemma top_names_eq:
  "top_names rows
     = concat (map (\<lambda>k. nlargest 5 (filter (\<lambda>r. postal_code r = Some k) rows)) (group_keys rows))"
  by (simp add: top_names_def groupby_def comp_def)

lemma filter_concat_map:
  "filter P (concat (map f ks)) = concat (map (\<lambda>k. filter P (f k)) ks)"
  by (induction ks) simp_all

lemma filter_top_names:
  "filter (\<lambda>r. postal_code r = Some k) (top_names rows)
     = (if k \<in> set (group_keys rows)
        then nlargest 5 (filter (\<lambda>r. postal_code r = Some k) rows) else [])"
proof -
  let ?G = "\<lambda>k'. nlargest 5 (filter (\<lambda>r. postal_code r = Some k') rows)"
  have "filter (\<lambda>r. postal_code r = Some k) (top_names rows)
      = concat (map (\<lambda>k'. filter (\<lambda>r. postal_code r = Some k) (?G k')) (group_keys rows))"
    by (simp only: top_names_eq filter_concat_map)
  also have "\<dots> = concat (map (\<lambda>k'. if k' = k then ?G k' else []) (group_keys rows))"
  proof -
    have "(\<lambda>k'. filter (\<lambda>r. postal_code r = Some k) (?G k')) = (\<lambda>k'. if k' = k then ?G k' else [])"
    proof
      fix k'
      show "filter (\<lambda>r. postal_code r = Some k) (?G k') = (if k' = k then ?G k' else [])"
        using filter_nlargest_group[of k 5 k' rows] by (cases "k' = k") simp_all
    qed
    then show ?thesis by (simp only:)
  qed
  also have "\<dots> = (if k \<in> set (group_keys rows) then ?G k else [])"
    by (rule concat_select[OF distinct_group_keys])
  finally show ?thesis .
qed

lemma group_keys_top_names: "group_keys (top_names rows) = group_keys rows"
proof (rule group_keys_cong, rule set_eqI)
  fix k
  have "k \<in> set (group_keys (top_names rows))
      \<longleftrightarrow> filter (\<lambda>r. postal_code r = Some k) (top_names rows) \<noteq> []"
    by (auto simp: set_group_keys filter_empty_conv)
  also have "\<dots> \<longleftrightarrow> k \<in> set (group_keys rows)"
  proof (cases "k \<in> set (group_keys rows)")
    case True
    then have "filter (\<lambda>r. postal_code r = Some k) rows \<noteq> []"
      by (auto simp: set_group_keys filter_empty_conv)
    then have "nlargest 5 (filter (\<lambda>r. postal_code r = Some k) rows) \<noteq> []"
      by (intro nlargest_nonempty) simp_all
    with True show ?thesis by (simp add: filter_top_names)
  next
    case False
    then show ?thesis by (simp add: filter_top_names)
  qed
  finally show "k \<in> set (group_keys (top_names rows)) \<longleftrightarrow> k \<in> set (group_keys rows)" .
qed

lemma groupby_top_names:
  "groupby (top_names rows)
     = map (\<lambda>k. (k, nlargest 5 (filter (\<lambda>r. postal_code r = Some k) rows))) (group_keys rows)"
  by (simp add: groupby_def group_keys_top_names filter_top_names)

lemma top_names_pivot_eq:
  "top_names_pivot rows
     = map (\<lambda>k. (k, join '', '' (map render_row
              (nlargest 5 (filter (\<lambda>r. postal_code r = Some k) rows))))) (group_keys rows)"
  by (simp add: top_names_pivot_def groupby_top_names comp_def)

lemma keys_top_names_pivot: "map fst (top_names_pivot rows) = group_keys rows"
  by (simp add: top_names_pivot_eq comp_def)

text \<open>
  C6. The summary table has one row per group key, and its text is the rendering
  \<open>name (frequency)\<close> of the top five rows of that key's group, joined by a comma and a
  space in the order of the selection. For any group \<open>g\<close>, the selection of five has
  \<open>min 5 (length g)\<close> rows, so at most five and all of a smaller group; it is in
  descending order of frequency; among the rows of one frequency it holds the first ones
  of the group in the group's order; and no row left out has a higher frequency than a
  row selected.
\<close>

theorem top_names_pivot_summary:
  "top_names_pivot rows
     = map (\<lambda>k. (k, join '', '' (map render_row
              (nlargest 5 (filter (\<lambda>r. postal_code r = Some k) rows))))) (group_keys rows)
   \<and> render_row r = TX_FST_NAME r @ '' ('' @ str_of_int (MS_FREQUENCY r) @ '')''
   \<and> join '', '' [a, b, c] = a @ '', '' @ b @ '', '' @ c
   \<and> length (nlargest 5 g) = min 5 (length g)
   \<and> sorted_wrt (\<lambda>a b. MS_FREQUENCY b \<le> MS_FREQUENCY a) (nlargest 5 g)
   \<and> (\<exists>j. filter (\<lambda>r. MS_FREQUENCY r = f) (nlargest 5 g)
            = take j (filter (\<lambda>r. MS_FREQUENCY r = f) g))
   \<and> (\<exists>rest. mset g = mset (nlargest 5 g) + mset rest
         \<and> (\<forall>a\<in>set (nlargest 5 g). \<forall>b\<in>set rest. MS_FREQUENCY b \<le> MS_FREQUENCY a))
   \<and> (length g \<le> 5 \<longrightarrow> mset (nlargest 5 g) = mset g)"
proof -
  have "render_row r = TX_FST_NAME r @ '' ('' @ str_of_int (MS_FREQUENCY r) @ '')''"
    by (simp add: render_row_def)
  moreover have "join '', '' [a, b, c] = a @ '', '' @ b @ '', '' @ c"
    by simp
  moreover have "length g \<le> 5 \<longrightarrow> mset (nlargest 5 g) = mset g"
    using nlargest_all[of g 5] by blast
  ultimately show ?thesis
    using top_names_pivot_eq[of rows] length_nlargest[of 5 g] sorted_nlargest[of 5 g]
      nlargest_stable[of f 5 g] nlargest_top[of g 5]
    by blast
qed

theorem top_names_pivot_summary_witness:
  "top_names_pivot
     [\<lparr>postal_code = Some (1000::int), TX_FST_NAME = ''Anna'', MS_FREQUENCY = 50\<rparr>,
      \<lparr>postal_code = Some 1000, TX_FST_NAME = ''Ben'', MS_FREQUENCY = 80\<rparr>,
      \<lparr>postal_code = Some 1000, TX_FST_NAME = ''Cara'', MS_FREQUENCY = 80\<rparr>]
   = [(1000, ''Ben (80), Cara (80), Anna (50)'')]"
proof -
  let ?rows = "[\<lparr>postal_code = Some (1000::int), TX_FST_NAME = ''Anna'', MS_FREQUENCY = 50\<rparr>,
      \<lparr>postal_code = Some 1000, TX_FST_NAME = ''Ben'', MS_FREQUENCY = 80\<rparr>,
      \<lparr>postal_code = Some 1000, TX_FST_NAME = ''Cara'', MS_FREQUENCY = 80\<rparr>]"
  have "top_names_pivot ?rows
      = map (\<lambda>k. (k, join '', '' (map render_row
              (nlargest 5 (filter (\<lambda>r. postal_code r = Some k) ?rows))))) (group_keys ?rows)"
    by (rule top_names_pivot_summary[THEN conjunct1])
  also have "\<dots> = [(1000, ''Ben (80), Cara (80), Anna (50)'')]"
    by code_simp
  finally show ?thesis .
qed

text \<open>
  C10. The keys of the summary table are distinct, in ascending order, and are exactly
  the postal codes that some row of the names table has; a row without a postal code
  (NaN) gives no key, and no key stands for an empty group.
\<close>

theorem top_names_pivot_keys:
  "distinct (map fst (top_names_pivot rows))
   \<and> sorted (map fst (top_names_pivot rows))
   \<and> set (map fst (top_names_pivot rows)) = {k. \<exists>r\<in>set rows. postal_code r = Some k}
   \<and> length (top_names_pivot rows) = card {k. \<exists>r\<in>set rows. postal_code r = Some k}"
proof -
  have "length (top_names_pivot rows) = length (group_keys rows)"
    by (simp add: top_names_pivot_eq)
  also have "\<dots> = card (set (group_keys rows))"
    by (simp add: distinct_card distinct_group_keys)
  finally have "length (top_names_pivot rows) = card {k. \<exists>r\<in>set rows. postal_code r = Some k}"
    by (simp only: set_group_keys)
  then show ?thesis
    by (simp add: keys_top_names_pivot distinct_group_keys sorted_group_keys set_group_keys)
qed

section \<open>The merge\<close>

lemma filter_key_distinct:
  "distinct (map fst S) \<Longrightarrow>
     filter (\<lambda>(k, s). Some k = key) S
       = (case key of None \<Rightarrow> []
          | Some k \<Rightarrow> (case map_of S k of None \<Rightarrow> [] | Some s \<Rightarrow> [(k, s)]))"
proof (induction S)
  case Nil
  then show ?case by (simp split: option.splits)
next
  case (Cons p S)
  obtain k' s' where p: "p = (k', s')" by (cases p)
  have absent: "map_of S k' = None"
    using Cons.prems by (simp add: p map_of_eq_None_iff)
  show ?case
  proof (cases key)
    case None
    with Cons show ?thesis by (simp add: p)
  next
    case (Some k)
    with Cons absent show ?thesis
      by (auto simp: p split: option.splits)
  qed
qed

lemma merge_left_distinct:
  assumes "distinct (map fst S)"
  shows "merge_left L S
     = map (\<lambda>(key, row). (key, row, case key of None \<Rightarrow> None | Some k \<Rightarrow> map_of S k)) L"
proof (induction L)
  case Nil
  then show ?case by (simp add: merge_left_def)
next
  case (Cons x L)
  obtain key row where x: "x = (key, row)" by (cases x)
  have "merge_left (x # L) S
      = (case filter (\<lambda>(k, s). Some k = key) S of
           [] \<Rightarrow> [(key, row, None)]
         | ms \<Rightarrow> map (\<lambda>(k, s). (key, row, Some s)) ms) @ merge_left L S"
    by (simp add: merge_left_def x)
  also have "(case filter (\<lambda>(k, s). Some k = key) S of
           [] \<Rightarrow> [(key, row, None)]
         | ms \<Rightarrow> map (\<lambda>(k, s). (key, row, Some s)) ms)
      = [(key, row, case key of None \<Rightarrow> None | Some k \<Rightarrow> map_of S k)]"
    by (simp add: filter_key_distinct[OF assms] split: option.splits)
  finally show ?case
    by (simp add: Cons.IH x)
qed

text \<open>
  C4. Merging the listings with the summary table of any names table gives one row per
  listing, in the order of the listings: the listing's key and columns, and with them the
  summary text of that key, or missing when the key is missing or has no summary. The
  result has as many rows as the listings.
\<close>

theorem merge_with_top_names_cardinality:
  "length (merge_with_top_names L names) = length L
   \<and> merge_with_top_names L names
       = map (\<lambda>(key, row). (key, row,
                case key of None \<Rightarrow> None | Some k \<Rightarrow> map_of (top_names_pivot names) k)) L
   \<and> (map_of (top_names_pivot names) k = Some s) = ((k, s) \<in> set (top_names_pivot names))"
proof -
  have d: "distinct (map fst (top_names_pivot names))"
    by (simp add: keys_top_names_pivot distinct_group_keys)
  have m: "merge_with_top_names L names
       = map (\<lambda>(key, row). (key, row,
                case key of None \<Rightarrow> None | Some k \<Rightarrow> map_of (top_names_pivot names) k)) L"
    unfolding merge_with_top_names_def by (rule merge_left_distinct[OF d])
  have "length (merge_with_top_names L names) = length L"
    by (simp add: m)
  moreover have "(map_of (top_names_pivot names) k = Some s) = ((k, s) \<in> set (top_names_pivot names))"
    using d by simp
  ultimately show ?thesis using m by blast
qed

section \<open>Steps 2 and 3 of the main script\<close>

lemma apply_series_map: "apply_series f xs = Inr ys \<Longrightarrow> map f xs = map Inr ys"
proof (induction xs arbitrary: ys)
  case Nil
  then show ?case by simp
next
  case (Cons x xs)
  then obtain y ys' where "f x = Inr y" "apply_series f xs = Inr ys'" "ys = y # ys'"
    by (auto split: sum.splits)
  with Cons.IH[of ys'] show ?case by simp
qed

lemma format_postal_codes_Inr:
  assumes "format_postal_codes raw = Inr fm"
  shows "map (\<lambda>r. format_postal_code (postal_code r)) raw = map (\<lambda>r. Inr (postal_code r)) fm"
proof -
  from assms obtain vs where
    vs: "apply_series format_postal_code (map postal_code raw) = Inr vs"
    and fm: "fm = map (\<lambda>(r, v). r\<lparr>postal_code := v\<rparr>) (zip raw vs)"
    by (auto simp: format_postal_codes_def split: sum.splits)
  have len: "length vs = length raw"
    using apply_series_Inr[OF vs] by simp
  have pc: "map postal_code fm = vs"
    unfolding fm using len by (intro nth_equalityI) simp_all
  have "map (\<lambda>r. Inr (postal_code r)) fm = map Inr (map postal_code fm)"
    by (simp add: comp_def)
  then have a: "map (\<lambda>r. Inr (postal_code r)) fm = map Inr vs"
    by (simp only: pc)
  have b: "map (\<lambda>r. format_postal_code (postal_code r)) raw = map Inr vs"
    using apply_series_map[OF vs] by (simp add: comp_def)
  show ?thesis using b a[symmetric] by (rule trans)
qed

lemma format_postal_codes_Inl:
  assumes "r \<in> set raw" "format_postal_code (postal_code r) = Inl e"
  shows "\<exists>e'. format_postal_codes raw = Inl e'"
proof -
  have "postal_code r \<in> set (map postal_code raw)"
    using assms(1) by simp
  then obtain e' where "apply_series format_postal_code (map postal_code raw) = Inl e'"
    using apply_series_Inl assms(2) by blast
  then show ?thesis by (simp add: format_postal_codes_def)
qed

lemma read_key_Some: "(read_key c = Some n) = (c = CInt n)"
  by (cases c) (auto simp: read_key_def)

lemma main_top_names_Inr:
  assumes "main_top_names raw = Inr out"
  shows "\<forall>r\<in>set raw. \<exists>v. format_postal_code (postal_code r) = Inr v"
    and "set (map fst out) = {n. \<exists>r\<in>set raw. format_postal_code (postal_code r) = Inr (CInt n)}"
proof -
  from assms obtain fm where fm: "format_postal_codes raw = Inr fm"
    and out: "out = top_names_pivot (read_names fm)"
    by (auto simp: main_top_names_def split: sum.splits)
  have eq: "(\<lambda>r. format_postal_code (postal_code r)) ` set raw = (\<lambda>r. Inr (postal_code r)) ` set fm"
    using format_postal_codes_Inr[OF fm, THEN arg_cong[where f = set]] by simp
  show "\<forall>r\<in>set raw. \<exists>v. format_postal_code (postal_code r) = Inr v"
  proof
    fix r
    assume "r \<in> set raw"
    then have "format_postal_code (postal_code r) \<in> (\<lambda>r. Inr (postal_code r)) ` set fm"
      using eq by blast
    then show "\<exists>v. format_postal_code (postal_code r) = Inr v"
      by blast
  qed
  have "set (map fst out) = {k. \<exists>r\<in>set (read_names fm). postal_code r = Some k}"
    by (simp only: out keys_top_names_pivot set_group_keys)
  also have "\<dots> = {n. \<exists>r\<in>set fm. postal_code r = CInt n}"
    by (auto simp: read_names_def read_key_Some)
  also have "\<dots> = {n. Inr (CInt n) \<in> (\<lambda>r. Inr (postal_code r) :: error + cell) ` set fm}"
    by (force simp: image_iff)
  also have "\<dots> = {n. Inr (CInt n) \<in> (\<lambda>r. format_postal_code (postal_code r)) ` set raw}"
    by (simp only: eq)
  also have "\<dots> = {n. \<exists>r\<in>set raw. format_postal_code (postal_code r) = Inr (CInt n)}"
    by (simp add: image_iff eq_commute)
  finally show "set (map fst out)
      = {n. \<exists>r\<in>set raw. format_postal_code (postal_code r) = Inr (CInt n)}" .
qed

text \<open>
  C8 (as amended). In the name path of the main script the raw names table is formatted
  first, and the grouping works on the formatted postal codes: when the script gets to
  the summary table, every raw postal code was formatted without an exception and the
  keys of the summary are exactly the integers that the raw postal codes are formatted
  to; a raw postal code the formatter raises on stops the script before any grouping.
  \<open>merge_with_top_names\<close> itself formats nothing: its keys are the postal codes of the
  table it is given.
\<close>

theorem main_top_names_keys:
  "(main_top_names raw = Inr out \<longrightarrow>
      (\<forall>r\<in>set raw. \<exists>v. format_postal_code (postal_code r) = Inr v)
      \<and> set (map fst out)
          = {n. \<exists>r\<in>set raw. format_postal_code (postal_code r) = Inr (CInt n)})
   \<and> ((\<exists>r\<in>set raw. \<exists>e. format_postal_code (postal_code r) = Inl e)
        \<longrightarrow> (\<exists>e. main_top_names raw = Inl e))
   \<and> set (map fst (top_names_pivot rows)) = {k. \<exists>r\<in>set rows. postal_code r = Some k}"
proof (intro conjI impI)
  assume "main_top_names raw = Inr out"
  then show "\<forall>r\<in>set raw. \<exists>v. format_postal_code (postal_code r) = Inr v"
    and "set (map fst out)
          = {n. \<exists>r\<in>set raw. format_postal_code (postal_code r) = Inr (CInt n)}"
    by (rule main_top_names_Inr)+
next
  assume "\<exists>r\<in>set raw. \<exists>e. format_postal_code (postal_code r) = Inl e"
  then obtain e' where "format_postal_codes raw = Inl e'"
    using format_postal_codes_Inl by blast
  then show "\<exists>e. main_top_names raw = Inl e"
    by (simp add: main_top_names_def)
next
  show "set (map fst (top_names_pivot rows)) = {k. \<exists>r\<in>set rows. postal_code r = Some k}"
    by (simp only: keys_top_names_pivot set_group_keys)
qed

theorem main_top_names_keys_witness:
  "main_top_names
     [\<lparr>postal_code = CStr ''1000, 1010'', TX_FST_NAME = ''Anna'', MS_FREQUENCY = 50\<rparr>,
      \<lparr>postal_code = CInt 2000, TX_FST_NAME = ''Ben'', MS_FREQUENCY = 80\<rparr>]
     = Inr [(1000, ''Anna (50)''), (2000, ''Ben (80)'')]
   \<and> set (map fst [(1000 :: int, ''Anna (50)''), (2000, ''Ben (80)'')])
       = {n. \<exists>r\<in>set [\<lparr>postal_code = CStr ''1000, 1010'', TX_FST_NAME = ''Anna'', MS_FREQUENCY = 50\<rparr>,
                        \<lparr>postal_code = CInt 2000, TX_FST_NAME = ''Ben'', MS_FREQUENCY = 80\<rparr>].
              format_postal_code (postal_code r) = Inr (CInt n)}"
proof -
  let ?raw = "[\<lparr>postal_code = CStr ''1000, 1010'', TX_FST_NAME = ''Anna'', MS_FREQUENCY = 50\<rparr>,
      \<lparr>postal_code = CInt 2000, TX_FST_NAME = ''Ben'', MS_FREQUENCY = 80\<rparr>]"
  have run: "main_top_names ?raw = Inr [(1000, ''Anna (50)''), (2000, ''Ben (80)'')]"
    by code_simp
  show ?thesis
    using run main_top_names_keys[of ?raw "[(1000, ''Anna (50)''), (2000, ''Ben (80)'')]",
        THEN conjunct1, rule_format, OF run, THEN conjunct2]
    by (rule conjI)
qed

text \<open>
  C8 as stated fails: two records whose raw postal codes differ, \<open>"1000, 1010"\<close> and
  \<open>"1000"\<close>, are put in one group, under the formatted key 1000.
\<close>

theorem main_top_names_groups_formatted_codes:
  "main_top_names
     [\<lparr>postal_code = CStr ''1000, 1010'', TX_FST_NAME = ''Anna'', MS_FREQUENCY = 50\<rparr>,
      \<lparr>postal_code = CStr ''1000'', TX_FST_NAME = ''Ben'', MS_FREQUENCY = 80\<rparr>]
     = Inr [(1000, ''Ben (80), Anna (50)'')]
   \<and> CStr ''1000, 1010'' \<noteq> CStr ''1000''"
  by code_simp

end
